theory Spec2Isabelle
  imports Main "HOL-Library.Sublist"
begin

section \<open>Strings\<close>

text \<open>
  A JavaScript string is a sequence of UTF-16 code units. The model uses \<^typ>\<open>string\<close>, a
  list of 8-bit characters, read as the code units U+0000 to U+00FF (Latin-1). On these
  \<open>toLowerCase\<close> maps character by character and keeps the length; the white space of
  \<open>\s\<close> and \<open>trim\<close> is U+0009 to U+000D, U+0020 and U+00A0; the line terminators seen by
  \<open>^\<close> under the \<open>m\<close> flag are U+000A and U+000D.
\<close>

definition toLowerChar :: "char \<Rightarrow> char" where
  "toLowerChar c =
     (let n = (of_char c :: nat)
      in if (65 \<le> n \<and> n \<le> 90) \<or> (192 \<le> n \<and> n \<le> 222 \<and> n \<noteq> 215)
         then char_of (n + 32) else c)"

definition toLowerCase :: "string \<Rightarrow> string" where
  "toLowerCase s = map toLowerChar s"

text \<open>\<open>toUpperCase\<close> is only applied to the names \<open>nodejs\<close> and \<open>python\<close>.\<close>

definition toUpperChar :: "char \<Rightarrow> char" where
  "toUpperChar c =
     (let n = (of_char c :: nat)
      in if 97 \<le> n \<and> n \<le> 122 then char_of (n - 32) else c)"

definition newline :: char where
  "newline = CHR 0x0A"

definition dquote :: char where
  "dquote = CHR 0x22"

definition backtick :: char where
  "backtick = CHR 0x60"

definition isWhiteSpace :: "char \<Rightarrow> bool" where
  "isWhiteSpace c =
     (let n = (of_char c :: nat) in (9 \<le> n \<and> n \<le> 13) \<or> n = 32 \<or> n = 160)"

definition isLineTerminator :: "char \<Rightarrow> bool" where
  "isLineTerminator c = (c = CHR 0x0A \<or> c = CHR 0x0D)"

text \<open>\<open>s.indexOf(t)\<close>: the least index at which \<open>t\<close> starts in \<open>s\<close>, or \<open>-1\<close>.\<close>

fun indexOf :: "string \<Rightarrow> string \<Rightarrow> int" where
  "indexOf [] t = (if t = [] then 0 else - 1)"
| "indexOf (c # s) t =
     (if prefix t (c # s) then 0
      else (let r = indexOf s t in if r < 0 then - 1 else r + 1))"

text \<open>\<open>s.includes(t)\<close>.\<close>

definition includesStr :: "string \<Rightarrow> string \<Rightarrow> bool" where
  "includesStr s t = (indexOf s t \<noteq> - 1)"

text \<open>\<open>s.startsWith(t)\<close>.\<close>

definition startsWith :: "string \<Rightarrow> string \<Rightarrow> bool" where
  "startsWith s t = prefix t s"

text \<open>
  \<open>s.substring(a, b)\<close>: both arguments are clamped to \<open>[0, s.length]\<close> and swapped when
  the first is the larger.
\<close>

definition clampIndex :: "string \<Rightarrow> int \<Rightarrow> nat" where
  "clampIndex s a = nat (max 0 (min a (int (length s))))"

definition substring :: "string \<Rightarrow> int \<Rightarrow> int \<Rightarrow> string" where
  "substring s a b =
     (let a' = clampIndex s a; b' = clampIndex s b;
          lo = min a' b'; hi = max a' b'
      in take (hi - lo) (drop lo s))"

text \<open>\<open>s.split("\n")\<close>: always at least one piece.\<close>

fun splitLines :: "string \<Rightarrow> string list" where
  "splitLines [] = [[]]"
| "splitLines (c # s) =
     (if c = newline then [] # splitLines s
      else (case splitLines s of l # ls \<Rightarrow> (c # l) # ls | [] \<Rightarrow> [[c]]))"

text \<open>\<open>xs.join(sep)\<close>.\<close>

fun join :: "string \<Rightarrow> string list \<Rightarrow> string" where
  "join sep [] = []"
| "join sep [x] = x"
| "join sep (x # y # ys) = x @ sep @ join sep (y # ys)"

text \<open>\<open>xs.slice(a, b)\<close> for \<open>0 \<le> a\<close> and \<open>0 \<le> b\<close>.\<close>

definition slice :: "'a list \<Rightarrow> nat \<Rightarrow> nat \<Rightarrow> 'a list" where
  "slice xs a b = take (b - a) (drop a xs)"

text \<open>The decimal digits of a number, as template literals print it.\<close>

fun showNat :: "nat \<Rightarrow> string" where
  "showNat n =
     (if n < 10 then [char_of (48 + n)]
      else showNat (n div 10) @ [char_of (48 + n mod 10)])"

declare showNat.simps [simp del]

section \<open>Document cache and fetcher\<close>

record cacheEntry =
  content :: string
  timestamp :: int

text \<open>
  The mutable state: \<open>documentCache\<close>, and the log of the URLs requested from the remote
  server, which makes "without a remote fetch" observable.
\<close>

record world =
  documentCache :: "string \<rightharpoonup> cacheEntry"
  requests :: "string list"

definition CACHE_TTL :: int where
  "CACHE_TTL = 3600000"

text \<open>
  What a \<open>catch\<close> clause can receive: an \<open>Error\<close> object with its message, or any other
  value with its \<open>String(...)\<close> rendering.
\<close>

datatype thrown = ErrorObj string | OtherValue string

text \<open>
  A response has a status, and a body whose reading (\<open>response.text()\<close>) may itself throw.
  The remote server is a function from the URL to what \<open>fetch(url)\<close> does: throw, or
  resolve to a response.
\<close>

datatype response = Response (status: nat) (body: "thrown + string")

type_synonym remote = "string \<Rightarrow> thrown + response"

definition ok :: "response \<Rightarrow> bool" where
  "ok r = (200 \<le> status r \<and> status r \<le> 299)"

definition docUrl :: "string \<Rightarrow> string" where
  "docUrl path = ''https://docs.paymanai.com'' @ path @ ''.md''"

text \<open>The body of the \<open>try\<close> block: \<open>Inl\<close> is the value thrown.\<close>

definition tryFetch :: "remote \<Rightarrow> int \<Rightarrow> string \<Rightarrow> world \<Rightarrow> (thrown + string) \<times> world" where
  "tryFetch remote now path w =
     (let url = docUrl path;
          w1 = w\<lparr>requests := requests w @ [url]\<rparr>
      in case remote url of
           Inl e \<Rightarrow> (Inl e, w1)
         | Inr resp \<Rightarrow>
             if \<not> ok resp
             then (Inl (ErrorObj (''Failed to fetch: '' @ showNat (status resp))), w1)
             else (case body resp of
                     Inl e \<Rightarrow> (Inl e, w1)
                   | Inr c \<Rightarrow>
                       (Inr c,
                        w1\<lparr>documentCache :=
                             (documentCache w1)(path \<mapsto> \<lparr>content = c, timestamp = now\<rparr>)\<rparr>)))"

definition errorMessage :: "thrown \<Rightarrow> string" where
  "errorMessage e = (case e of ErrorObj m \<Rightarrow> m | OtherValue s \<Rightarrow> s)"

definition placeholder :: "string \<Rightarrow> string \<Rightarrow> string" where
  "placeholder path msg =
     ''Documentation content not available for path: '' @ path @ ''.md'' @ [newline]
       @ ''Error: '' @ msg"

text \<open>The cache miss path: the \<open>try\<close> block and its \<open>catch\<close>.\<close>

definition refetch :: "remote \<Rightarrow> int \<Rightarrow> string \<Rightarrow> world \<Rightarrow> string \<times> world" where
  "refetch remote now path w =
     (case tryFetch remote now path w of
        (Inr c, w') \<Rightarrow> (c, w')
      | (Inl err, w') \<Rightarrow> (placeholder path (errorMessage err), w'))"

definition fetchDocMarkdown :: "remote \<Rightarrow> int \<Rightarrow> string \<Rightarrow> world \<Rightarrow> string \<times> world" where
  "fetchDocMarkdown remote now path w =
     (case documentCache w path of
        Some cachedDoc \<Rightarrow>
          if now - timestamp cachedDoc < CACHE_TTL then (content cachedDoc, w)
          else refetch remote now path w
      | None \<Rightarrow> refetch remote now path w)"

text \<open>
  The ways a remote fetch fails, with the message of the error the \<open>catch\<close> clause receives:
  \<open>fetch\<close> throws (network failure), the status is not 2xx, or reading the body throws.
\<close>

definition fetchError :: "remote \<Rightarrow> string \<Rightarrow> string option" where
  "fetchError remote path =
     (case remote (docUrl path) of
        Inl e \<Rightarrow> Some (errorMessage e)
      | Inr resp \<Rightarrow>
          if \<not> ok resp then Some (''Failed to fetch: '' @ showNat (status resp))
          else (case body resp of Inl e \<Rightarrow> Some (errorMessage e) | Inr c \<Rightarrow> None))"

section \<open>Topic registry\<close>

text \<open>
  The twelve topic identifiers of \<open>docTopics\<close>. The tools that take a topic validate it
  against this enumeration before the handler runs, so the handlers only see these values.
\<close>

datatype topic =
  Quickstart | Playground | SetupAndInstallation | CreatePayees | SendPayments | CreatePayee
  | SearchPayees | CheckBalances | BillPaymentAgent | ApiReference | ApiKeys | ErrorHandling

definition docTopics :: "topic list" where
  "docTopics =
     [Quickstart, Playground, SetupAndInstallation, CreatePayees, SendPayments, CreatePayee,
      SearchPayees, CheckBalances, BillPaymentAgent, ApiReference, ApiKeys, ErrorHandling]"

fun topicId :: "topic \<Rightarrow> string" where
  "topicId Quickstart = ''quickstart''"
| "topicId Playground = ''playground''"
| "topicId SetupAndInstallation = ''setup-and-installation''"
| "topicId CreatePayees = ''create-payees''"
| "topicId SendPayments = ''send-payments''"
| "topicId CreatePayee = ''create-payee''"
| "topicId SearchPayees = ''search-payees''"
| "topicId CheckBalances = ''check-balances''"
| "topicId BillPaymentAgent = ''bill-payment-agent''"
| "topicId ApiReference = ''api-reference''"
| "topicId ApiKeys = ''api-keys''"
| "topicId ErrorHandling = ''error-handling''"

fun pathMap :: "topic \<Rightarrow> string" where
  "pathMap Quickstart = ''/overview/quickstart''"
| "pathMap Playground = ''/overview/playground''"
| "pathMap SetupAndInstallation = ''/sdks/setup-and-installation''"
| "pathMap CreatePayees = ''/sdks/create-payees''"
| "pathMap SendPayments = ''/sdks/send-payments''"
| "pathMap CreatePayee = ''/sdks/create-payee''"
| "pathMap SearchPayees = ''/sdks/search-payees''"
| "pathMap CheckBalances = ''/sdks/check-balances''"
| "pathMap BillPaymentAgent = ''/guides/bill-payment-agent''"
| "pathMap ApiReference = ''/api-reference/introduction''"
| "pathMap ApiKeys = ''/api-reference/get-api-key''"
| "pathMap ErrorHandling = ''/api-reference/error-handling''"

text \<open>\<open>Object.keys(pathMap)\<close>: the keys in the order the object literal lists them.\<close>

definition pathMapKeys :: "topic list" where
  "pathMapKeys =
     [Quickstart, Playground, SetupAndInstallation, CreatePayees, SendPayments, CreatePayee,
      SearchPayees, CheckBalances, BillPaymentAgent, ApiReference, ApiKeys, ErrorHandling]"

text \<open>\<open>topicMetadata\<close>, one function for each field.\<close>

fun title :: "topic \<Rightarrow> string" where
  "title Quickstart = ''Quickstart Guide''"
| "title Playground = ''API Playground''"
| "title SetupAndInstallation = ''Setup and Installation''"
| "title CreatePayees = ''Create Payees''"
| "title SendPayments = ''Send Payments''"
| "title CreatePayee = ''Create Payee''"
| "title SearchPayees = ''Search Payees''"
| "title CheckBalances = ''Check Balances''"
| "title BillPaymentAgent = ''Bill Payment Agent''"
| "title ApiReference = ''API Reference''"
| "title ApiKeys = ''API Keys''"
| "title ErrorHandling = ''Error Handling''"

fun relatedTopics :: "topic \<Rightarrow> topic list" where
  "relatedTopics Quickstart = [SetupAndInstallation, ApiKeys]"
| "relatedTopics Playground = [ApiReference, ApiKeys]"
| "relatedTopics SetupAndInstallation = [ApiKeys, Quickstart]"
| "relatedTopics CreatePayees = [CreatePayee, SearchPayees]"
| "relatedTopics SendPayments = [CheckBalances, CreatePayees]"
| "relatedTopics CreatePayee = [CreatePayees, SearchPayees]"
| "relatedTopics SearchPayees = [CreatePayee, CreatePayees]"
| "relatedTopics CheckBalances = [SendPayments]"
| "relatedTopics BillPaymentAgent = [SendPayments]"
| "relatedTopics ApiReference = [ErrorHandling, ApiKeys]"
| "relatedTopics ApiKeys = [ApiReference, SetupAndInstallation]"
| "relatedTopics ErrorHandling = [ApiReference]"

section \<open>get-documentation\<close>

definition relatedTopicLine :: "topic \<Rightarrow> string" where
  "relatedTopicLine t =
     ''- '' @ title t @ '' (use get-documentation with topic '' @ [dquote] @ topicId t
       @ [dquote] @ '')''"

definition relatedTopicsText :: "topic \<Rightarrow> string" where
  "relatedTopicsText t =
     (if length (relatedTopics t) > 0
      then [newline, newline] @ ''## Related Topics'' @ [newline, newline]
             @ join [newline] (map relatedTopicLine (relatedTopics t))
      else [])"

text \<open>The handler returns the text of its single content item, and the new state.\<close>

definition get_documentation :: "remote \<Rightarrow> int \<Rightarrow> topic \<Rightarrow> world \<Rightarrow> string \<times> world" where
  "get_documentation remote now t w =
     (let path = pathMap t;
          (docContent, w') = fetchDocMarkdown remote now path w
      in (docContent @ relatedTopicsText t, w'))"

section \<open>solve-problem\<close>

record problemCategory =
  category :: string
  "keywords" :: "string list"
  topics :: "topic list"

definition problemCategories :: "problemCategory list" where
  "problemCategories =
     [\<lparr>category = ''Authentication'',
       keywords = [''api key'', ''auth'', ''authentication'', ''unauthorized'', ''401''],
       topics = [ApiKeys, ErrorHandling]\<rparr>,
      \<lparr>category = ''Payments'',
       keywords = [''payment'', ''send payment'', ''transaction'', ''failed payment''],
       topics = [SendPayments, ErrorHandling]\<rparr>,
      \<lparr>category = ''Payees'',
       keywords = [''payee'', ''recipient'', ''create payee'', ''add payee''],
       topics = [CreatePayee, CreatePayees]\<rparr>,
      \<lparr>category = ''Setup'',
       keywords = [''install'', ''setup'', ''configuration'', ''sdk'', ''initialize''],
       topics = [SetupAndInstallation, Quickstart]\<rparr>,
      \<lparr>category = ''Error Handling'',
       keywords = [''error'', ''exception'', ''crash'', ''failed''],
       topics = [ErrorHandling, ApiReference]\<rparr>]"

definition matchingCategories :: "string \<Rightarrow> problemCategory list" where
  "matchingCategories problem =
     (let problemLower = toLowerCase problem
      in filter (\<lambda>cat. list_ex (\<lambda>keyword. includesStr problemLower keyword) (keywords cat))
           problemCategories)"

definition topicsToConsult :: "string \<Rightarrow> topic list" where
  "topicsToConsult problem =
     (if length (matchingCategories problem) > 0
      then concat (map topics (matchingCategories problem))
      else [ErrorHandling, ApiReference, Quickstart])"

text \<open>
  \<open>[...new Set(xs)]\<close>: a \<open>Set\<close> keeps its elements in insertion order, and adding an element
  that is already there changes nothing.
\<close>

definition setAdd :: "'a list \<Rightarrow> 'a \<Rightarrow> 'a list" where
  "setAdd acc x = (if x \<in> set acc then acc else acc @ [x])"

definition newSet :: "'a list \<Rightarrow> 'a list" where
  "newSet xs = foldl setAdd [] xs"

definition uniqueTopics :: "string \<Rightarrow> topic list" where
  "uniqueTopics problem = newSet (topicsToConsult problem)"

text \<open>The list under the heading "Relevant Documentation" of the answer.\<close>

definition relevantDocumentation :: "string \<Rightarrow> string" where
  "relevantDocumentation problem =
     concat (map (\<lambda>t. ''- '' @ title t @ '': use get-documentation with topic '' @ [dquote]
                        @ topicId t @ [dquote] @ [newline])
               (uniqueTopics problem))"

text \<open>
  The specification's wording of the union: the elements in the order in which they are
  first seen, each one once.
\<close>

fun firstSeen :: "'a list \<Rightarrow> 'a list" where
  "firstSeen [] = []"
| "firstSeen (x # xs) = x # firstSeen (filter (\<lambda>y. y \<noteq> x) xs)"

section \<open>Fetching several documents\<close>

text \<open>
  \<open>Promise.all(paths.map(async ... fetchDocMarkdown(path) ...))\<close>. Each call runs up to its
  \<open>await fetch(url)\<close> before the next one starts, so the cache lookups and the requests
  happen in list order; the paths of one handler call are pairwise different, so a call
  neither reads nor writes the cache entry of another, and the order in which the responses
  arrive does not matter. The model runs the calls one after the other with one reading
  of the clock.
\<close>

fun fetchAll :: "remote \<Rightarrow> int \<Rightarrow> string list \<Rightarrow> world \<Rightarrow> string list \<times> world" where
  "fetchAll remote now [] w = ([], w)"
| "fetchAll remote now (p # ps) w =
     (let (c, w1) = fetchDocMarkdown remote now p w;
          (cs, w2) = fetchAll remote now ps w1
      in (c # cs, w2))"

section \<open>get-sdk-help\<close>

datatype sdk = Nodejs | Python

fun sdkName :: "sdk \<Rightarrow> string" where
  "sdkName Nodejs = ''nodejs''"
| "sdkName Python = ''python''"

definition sdkTopics :: "topic list" where
  "sdkTopics =
     [SetupAndInstallation, CreatePayees, SendPayments, CreatePayee, SearchPayees,
      CheckBalances]"

fun sdkIdentifier :: "sdk \<Rightarrow> string list" where
  "sdkIdentifier Nodejs = [''node'', ''nodejs'', ''javascript'', ''js'']"
| "sdkIdentifier Python = [''python'', ''py'']"

text \<open>The boolean \<open>relevance\<close> of the handler.\<close>

definition relevant :: "sdk \<Rightarrow> string \<Rightarrow> string \<Rightarrow> bool" where
  "relevant s feature c =
     list_ex (\<lambda>ident.
        includesStr (toLowerCase c) ident
        \<and> includesStr (toLowerCase c) (toLowerCase feature)
        \<and> \<bar>indexOf (toLowerCase c) ident - indexOf (toLowerCase c) (toLowerCase feature)\<bar> < 500)
       (sdkIdentifier s)"

text \<open>\<open>xs.findIndex(p)\<close>: the least index of an element satisfying \<open>p\<close>, or \<open>-1\<close>.\<close>

fun findIndex :: "('a \<Rightarrow> bool) \<Rightarrow> 'a list \<Rightarrow> int" where
  "findIndex p [] = - 1"
| "findIndex p (x # xs) =
     (if p x then 0 else (let r = findIndex p xs in if r < 0 then - 1 else r + 1))"

text \<open>
  The \<open>while\<close> loop that moves \<open>headingIndex\<close> up from the feature line; the index never
  leaves the list, since it starts at an index \<open>findIndex\<close> returned.
\<close>

fun headingIndex :: "string list \<Rightarrow> nat \<Rightarrow> nat" where
  "headingIndex lines 0 = 0"
| "headingIndex lines (Suc n) =
     (if startsWith (lines ! Suc n) ''#'' then Suc n else headingIndex lines n)"

record helpResult =
  h_topic :: topic
  h_heading :: string
  h_content :: string
  h_relevance :: nat

definition sdkHelpDoc :: "sdk \<Rightarrow> string \<Rightarrow> topic \<Rightarrow> string \<Rightarrow> helpResult option" where
  "sdkHelpDoc s feature t c =
     (if \<not> relevant s feature c then None
      else
        (let lines = splitLines c;
             featureIndex =
               findIndex (\<lambda>line. includesStr (toLowerCase line) (toLowerCase feature)) lines
         in if featureIndex = - 1 then None
            else
              (let hi = headingIndex lines (nat featureIndex);
                   sectionHeading = lines ! hi;
                   sectionContent = join [newline] (slice lines hi (nat featureIndex + 20))
               in Some \<lparr>h_topic = t, h_heading = sectionHeading, h_content = sectionContent,
                        h_relevance =
                          (if includesStr (toLowerCase c) (sdkName s) then 2 else 1)
                          + (if includesStr (toLowerCase sectionContent) (toLowerCase feature)
                             then 3 else 0)\<rparr>)))"

text \<open>The non-null results, in the order of \<open>sdkTopics\<close>.\<close>

definition helpCandidates :: "sdk \<Rightarrow> string \<Rightarrow> string list \<Rightarrow> helpResult list" where
  "helpCandidates s feature contents =
     List.map_filter (\<lambda>(t, c). sdkHelpDoc s feature t c) (zip sdkTopics contents)"

text \<open>
  \<open>helpResults.sort((a, b) => b.relevance - a.relevance)\<close>: \<open>Array.prototype.sort\<close> is stable,
  so the result is the stable sort by decreasing relevance.
\<close>

definition helpResults :: "sdk \<Rightarrow> string \<Rightarrow> string list \<Rightarrow> helpResult list" where
  "helpResults s feature contents =
     sort_key (\<lambda>r. - int (h_relevance r)) (helpCandidates s feature contents)"

definition renderHelpResult :: "helpResult \<Rightarrow> string" where
  "renderHelpResult r =
     ''## From '' @ title (h_topic r) @ [newline, newline]
     @ h_content r @ [newline, newline]
     @ ''*For complete documentation, use get-documentation with topic '' @ [dquote]
     @ topicId (h_topic r) @ [dquote] @ ''*'' @ [newline, newline] @ ''---'' @ [newline, newline]"

definition get_sdk_help :: "remote \<Rightarrow> int \<Rightarrow> sdk \<Rightarrow> string \<Rightarrow> world \<Rightarrow> string \<times> world" where
  "get_sdk_help remote now s feature w =
     (let (contents, w') = fetchAll remote now (map pathMap sdkTopics) w;
          results = helpResults s feature contents
      in if length results = 0
         then (''No specific help found for '' @ feature @ '' in the '' @ sdkName s
               @ '' SDK. Try checking the full SDK documentation with get-documentation or using more generic terms.'',
               w')
         else (''# '' @ map toUpperChar (sdkName s) @ '' SDK Help: '' @ feature @ [newline, newline]
               @ concat (map renderHelpResult results)
               @ ''## Additional Resources'' @ [newline, newline]
               @ ''- Setup and Installation: use get-documentation with topic '' @ [dquote]
               @ ''setup-and-installation'' @ [dquote] @ [newline]
               @ ''- Error Handling: use get-documentation with topic '' @ [dquote]
               @ ''error-handling'' @ [dquote] @ [newline]
               @ ''- For code examples, try the get-code-examples tool with feature='' @ [dquote]
               @ feature @ [dquote] @ '' and language='' @ [dquote] @ sdkName s @ [dquote]
               @ [newline],
               w'))"

text \<open>
  The specification's wording of the excerpt: the lines from the heading line through 20
  lines past the feature line, that is, up to and including line \<open>featureIndex + 20\<close>.
\<close>

definition excerptThrough20Past :: "string \<Rightarrow> string \<Rightarrow> string" where
  "excerptThrough20Past feature c =
     (let lines = splitLines c;
          f = nat (findIndex (\<lambda>line. includesStr (toLowerCase line) (toLowerCase feature)) lines);
          h = headingIndex lines f
      in join [newline] (map (\<lambda>i. lines ! i) [h ..< min (length lines) (f + 21)]))"

text \<open>A document of 22 lines: \<open>python pay\<close>, then the numbers 1 to 21.\<close>

definition numberedDoc :: string where
  "numberedDoc = join [newline] (''python pay'' # map showNat [1 ..< 22])"

section \<open>search-documentation\<close>

text \<open>
  A match of \<open>/^#+\s+/m\<close> that starts at the beginning of the given text, which is at a
  line start: the run of \<open>#\<close> and the run of white space after it, both non-empty. The
  result is the length of the match.
\<close>

definition headingMatch :: "string \<Rightarrow> nat option" where
  "headingMatch s =
     (let hashes = takeWhile (\<lambda>c. c = CHR ''#'') s;
          spaces = takeWhile isWhiteSpace (dropWhile (\<lambda>c. c = CHR ''#'') s)
      in if hashes \<noteq> [] \<and> spaces \<noteq> [] then Some (length hashes + length spaces) else None)"

text \<open>
  \<open>content.split(/^#+\s+/m)\<close>. The arguments are: whether the position is at a line start,
  how many characters of the separator matched last are still to be passed over, the piece
  collected so far, and the rest of the text.
\<close>

fun splitGo :: "bool \<Rightarrow> nat \<Rightarrow> string \<Rightarrow> string \<Rightarrow> string list" where
  "splitGo bol skip acc [] = [acc]"
| "splitGo bol skip acc (c # s) =
     (if skip > 0 then splitGo (isLineTerminator c) (skip - 1) acc s
      else (case (if bol then headingMatch (c # s) else None) of
              Some n \<Rightarrow> acc # splitGo (isLineTerminator c) (n - 1) [] s
            | None \<Rightarrow> splitGo (isLineTerminator c) 0 (acc @ [c]) s))"

definition splitSections :: "string \<Rightarrow> string list" where
  "splitSections c = splitGo True 0 [] c"

text \<open>\<open>s.replace(/\n+/g, " ")\<close>; the flag says that the character before was a newline.\<close>

fun collapseGo :: "bool \<Rightarrow> string \<Rightarrow> string" where
  "collapseGo prev [] = []"
| "collapseGo prev (c # s) =
     (if c = newline then (if prev then collapseGo True s else CHR '' '' # collapseGo True s)
      else c # collapseGo False s)"

definition collapseNewlines :: "string \<Rightarrow> string" where
  "collapseNewlines s = collapseGo False s"

text \<open>\<open>lines[0] || ""\<close> and \<open>lines.slice(1).join("\n")\<close> of a section.\<close>

definition sectionTitle :: "string \<Rightarrow> string" where
  "sectionTitle section = (case splitLines section of [] \<Rightarrow> [] | l # ls \<Rightarrow> l)"

definition sectionContent :: "string \<Rightarrow> string" where
  "sectionContent section = join [newline] (drop 1 (splitLines section))"

text \<open>
  The search of one document takes the function computed by \<open>toLowerCase\<close> as the parameter
  \<open>lc\<close>. The code looks the query up in the lower-cased copy of the section body and cuts
  the body itself at the index found there, so the result depends on whether lower-casing
  keeps the positions of the characters. JavaScript's \<open>toLowerCase\<close> does not always (U+0130
  becomes two code units); with \<open>lc\<close> a parameter, what is proved of these definitions
  holds whatever \<open>toLowerCase\<close> does.
\<close>

text \<open>The excerpt computed inside the loop from the body of the section.\<close>

definition excerptOf :: "(string \<Rightarrow> string) \<Rightarrow> string \<Rightarrow> string \<Rightarrow> string" where
  "excerptOf lc queryLower sc =
     (let index = indexOf (lc sc) queryLower;
          start = max 0 (index - 150);
          end = min (int (length sc)) (index + int (length queryLower) + 150)
      in (if start > 0 then ''...'' else [])
         @ collapseNewlines (substring sc start end)
         @ (if end < int (length sc) then ''...'' else []))"

text \<open>
  The \<open>for\<close> loop over the sections, which stops at the first section that contains the
  query: the values of \<open>bestSection\<close> and \<open>bestContext\<close> after it.
\<close>

fun bestMatch :: "(string \<Rightarrow> string) \<Rightarrow> string \<Rightarrow> string list \<Rightarrow> string \<times> string" where
  "bestMatch lc queryLower [] = ([], [])"
| "bestMatch lc queryLower (section # sections) =
     (if includesStr (lc section) queryLower
      then (sectionTitle section, excerptOf lc queryLower (sectionContent section))
      else bestMatch lc queryLower sections)"

record searchResult =
  r_title :: string
  r_topic :: topic
  r_section :: string
  r_excerpt :: string

text \<open>One document of the search; \<open>None\<close> is \<open>null\<close>. An empty string is falsy for \<open>||\<close>.\<close>

definition searchDocWith ::
  "(string \<Rightarrow> string) \<Rightarrow> string \<Rightarrow> topic \<Rightarrow> string \<Rightarrow> searchResult option" where
  "searchDocWith lc query t c =
     (let queryLower = lc query
      in if includesStr (lc c) queryLower
         then (let (bestSection, bestContext) = bestMatch lc queryLower (splitSections c)
               in Some \<lparr>r_title = title t, r_topic = t, r_section = bestSection,
                        r_excerpt = (if bestContext \<noteq> [] then bestContext
                                     else substring c 0 200 @ ''...'')\<rparr>)
         else None)"

definition searchDoc :: "string \<Rightarrow> topic \<Rightarrow> string \<Rightarrow> searchResult option" where
  "searchDoc query t c = searchDocWith toLowerCase query t c"

text \<open>
  A lowering function that turns one character into two, as \<open>toLowerCase\<close> turns U+0130
  into U+0069 U+0307, and a document whose section body has 200 of these characters
  before the match.
\<close>

definition lowerDotted :: "string \<Rightarrow> string" where
  "lowerDotted s = concat (map (\<lambda>c. if c = CHR ''I'' then ''i.'' else [toLowerChar c]) s)"

definition dottedBody :: string where
  "dottedBody = replicate 200 (CHR ''I'') @ ''pay'' @ replicate 200 (CHR ''y'')"


text \<open>The non-null results, in the order of \<open>Object.entries(pathMap)\<close>.\<close>

definition searchResults :: "string \<Rightarrow> string list \<Rightarrow> searchResult list" where
  "searchResults query contents =
     List.map_filter (\<lambda>(t, c). searchDoc query t c) (zip pathMapKeys contents)"

definition formatResult :: "searchResult \<Rightarrow> string" where
  "formatResult r =
     (let sectionHeading =
            (if r_section r \<noteq> [] then ''### '' @ r_section r @ [newline, newline] else [])
      in ''## '' @ r_title r @ [newline, newline] @ sectionHeading @ r_excerpt r
         @ [newline, newline]
         @ ''*For full documentation, use the get-documentation tool with topic '' @ [dquote]
         @ topicId (r_topic r) @ [dquote] @ ''.*'')"

text \<open>The suggestions when no document matches, from \<open>Object.entries(topicMetadata)\<close>.\<close>

definition possibleTopics :: "string \<Rightarrow> topic list" where
  "possibleTopics query =
     filter (\<lambda>t. includesStr (topicId t) (toLowerCase query)
               \<or> includesStr (toLowerCase (title t)) (toLowerCase query))
       docTopics"

definition suggestionText :: "string \<Rightarrow> string" where
  "suggestionText query =
     (if length (possibleTopics query) > 0
      then [newline, newline] @ ''You might be interested in these topics:'' @ [newline, newline]
           @ join [newline] (map relatedTopicLine (possibleTopics query))
      else [])"

definition search_documentation :: "remote \<Rightarrow> int \<Rightarrow> string \<Rightarrow> world \<Rightarrow> string \<times> world" where
  "search_documentation remote now query w =
     (let (contents, w') = fetchAll remote now (map pathMap pathMapKeys) w;
          results = searchResults query contents
      in if length results = 0
         then (''No results found for '' @ [dquote] @ query @ [dquote]
               @ ''. Try a different search term.'' @ suggestionText query, w')
         else (''# Search Results for '' @ [dquote] @ query @ [dquote] @ [newline, newline]
               @ join ([newline, newline] @ ''---'' @ [newline, newline]) (map formatResult results),
               w'))"

section \<open>get-code-examples\<close>

text \<open>The \<open>language\<close> argument has the same two values as \<open>sdk\<close>.\<close>

type_synonym language = sdk

text \<open>The alternatives of the tag group of \<open>codeBlockRegex\<close>, in the order they are tried.\<close>

fun languageTags :: "language \<Rightarrow> string list" where
  "languageTags Nodejs = [''javascript'', ''typescript'', ''js'', ''nodejs'', ''node'']"
| "languageTags Python = [''python'', ''py'']"

definition fence :: string where
  "fence = [backtick, backtick, backtick]"

text \<open>
  \<open>([\s\S]*?)```\<close>: the shortest text followed by a fence, with the text after that fence.
\<close>

fun lazyUntilFence :: "string \<Rightarrow> (string \<times> string) option" where
  "lazyUntilFence [] = None"
| "lazyUntilFence (c # s) =
     (if prefix fence (c # s) then Some ([], drop 3 (c # s))
      else map_option (\<lambda>(cap, rest). (c # cap, rest)) (lazyUntilFence s))"

text \<open>
  The alternatives tried in order on the text after the opening fence, going on to the
  next alternative when the rest of the pattern fails. The result is the captured group
  and the length of the match from the tag on.
\<close>

fun tryTags :: "string list \<Rightarrow> string \<Rightarrow> (string \<times> nat) option" where
  "tryTags [] s = None"
| "tryTags (tag # tags) s =
     (if prefix tag s
      then (case lazyUntilFence (drop (length tag) s) of
              Some (cap, rest) \<Rightarrow> Some (cap, length tag + length cap + 3)
            | None \<Rightarrow> tryTags tags s)
      else tryTags tags s)"

text \<open>A match of \<open>codeBlockRegex\<close> that starts at the beginning of the given text.\<close>

definition codeBlockMatch :: "language \<Rightarrow> string \<Rightarrow> (string \<times> nat) option" where
  "codeBlockMatch lang s =
     (if prefix fence s
      then map_option (\<lambda>(cap, n). (cap, 3 + n)) (tryTags (languageTags lang) (drop 3 s))
      else None)"

text \<open>
  \<open>[...content.matchAll(codeBlockRegex)].map((match) => match[1])\<close>: the matches from left to
  right, each search starting where the match before ended.
\<close>

fun matchAllGo :: "language \<Rightarrow> nat \<Rightarrow> string \<Rightarrow> string list" where
  "matchAllGo lang skip [] = []"
| "matchAllGo lang skip (c # s) =
     (if skip > 0 then matchAllGo lang (skip - 1) s
      else (case codeBlockMatch lang (c # s) of
              Some (cap, n) \<Rightarrow> cap # matchAllGo lang (n - 1) s
            | None \<Rightarrow> matchAllGo lang 0 s))"

text \<open>\<open>s.trim()\<close>.\<close>

definition trim :: "string \<Rightarrow> string" where
  "trim s = rev (dropWhile isWhiteSpace (rev (dropWhile isWhiteSpace s)))"

definition codeBlocks :: "language \<Rightarrow> string \<Rightarrow> string list" where
  "codeBlocks lang c = map trim (matchAllGo lang 0 c)"

definition relevantBlocks :: "language \<Rightarrow> string \<Rightarrow> string \<Rightarrow> string list" where
  "relevantBlocks lang feature c =
     filter (\<lambda>code.
        includesStr (toLowerCase code) (toLowerCase feature)
        \<or> includesStr
             (toLowerCase (substring c (max 0 (indexOf c code - 300)) (indexOf c code)))
             (toLowerCase feature))
       (codeBlocks lang c)"

record topicExamples =
  e_topic :: topic
  e_title :: string
  examples :: "string list"

definition codeExamplesDoc :: "language \<Rightarrow> string \<Rightarrow> topic \<Rightarrow> string \<Rightarrow> topicExamples option" where
  "codeExamplesDoc lang feature t c =
     (if length (relevantBlocks lang feature c) = 0 then None
      else Some \<lparr>e_topic = t, e_title = title t, examples = relevantBlocks lang feature c\<rparr>)"

definition potentialTopics :: "string \<Rightarrow> topic list" where
  "potentialTopics feature =
     filter (\<lambda>t. includesStr (toLowerCase (topicId t)) (toLowerCase feature)
               \<or> includesStr (toLowerCase (title t)) (toLowerCase feature))
       pathMapKeys"

definition topicsToSearch :: "string \<Rightarrow> topic list" where
  "topicsToSearch feature =
     (if length (potentialTopics feature) > 0 then potentialTopics feature else pathMapKeys)"

definition renderExample :: "language \<Rightarrow> nat \<times> string \<Rightarrow> string" where
  "renderExample lang ic =
     ''### Example '' @ showNat (fst ic + 1) @ [newline, newline]
     @ fence @ (case lang of Nodejs \<Rightarrow> ''javascript'' | Python \<Rightarrow> ''python'') @ [newline]
     @ snd ic @ [newline] @ fence @ [newline, newline]"

definition renderTopicExamples :: "language \<Rightarrow> topicExamples \<Rightarrow> string" where
  "renderTopicExamples lang e =
     ''## From '' @ e_title e @ [newline, newline]
     @ concat (map (renderExample lang) (enumerate 0 (examples e)))
     @ ''*For more context, check the full documentation: use get-documentation with topic ''
     @ [dquote] @ topicId (e_topic e) @ [dquote] @ ''.*'' @ [newline, newline] @ ''---''
     @ [newline, newline]"

definition get_code_examples ::
  "remote \<Rightarrow> int \<Rightarrow> string \<Rightarrow> language \<Rightarrow> world \<Rightarrow> string \<times> world" where
  "get_code_examples remote now feature lang w =
     (let (contents, w') = fetchAll remote now (map pathMap (topicsToSearch feature)) w;
          allExamples =
            List.map_filter (\<lambda>(t, c). codeExamplesDoc lang feature t c)
              (zip (topicsToSearch feature) contents)
      in if length allExamples = 0
         then (''No '' @ sdkName lang @ '' code examples found for '' @ [dquote] @ feature
               @ [dquote]
               @ ''. Try searching for a different feature or check the full documentation using get-documentation.'',
               w')
         else (''# '' @ map toUpperChar (sdkName lang) @ '' Code Examples for '' @ [dquote]
               @ feature @ [dquote] @ [newline, newline]
               @ concat (map (renderTopicExamples lang) allExamples),
               w'))"

text \<open>
  A document with the same Python block twice; only the second one follows a sentence
  with the word \<open>retry\<close>.
\<close>

definition retryDoc :: string where
  "retryDoc =
     fence @ ''python'' @ [newline] @ ''run()'' @ [newline] @ fence @ [newline]
     @ ''To retry a payment:'' @ [newline]
     @ fence @ ''python'' @ [newline] @ ''run()'' @ [newline] @ fence"

text \<open>A document with one Python block and one JavaScript block.\<close>

definition twoLanguageDoc :: string where
  "twoLanguageDoc =
     ''Send a payment:'' @ [newline]
     @ fence @ ''python'' @ [newline] @ ''client.send_payment(amount)'' @ [newline] @ fence
     @ [newline]
     @ fence @ ''javascript'' @ [newline] @ ''client.sendPayment(amount);'' @ [newline] @ fence"

section \<open>Properties of the fetcher\<close>

lemma tryFetch_requests:
  "requests (snd (tryFetch remote now path w)) = requests w @ [docUrl path]"
  by (simp add: tryFetch_def Let_def split: sum.splits)

lemma refetch_requests:
  "requests (snd (refetch remote now path w)) = requests w @ [docUrl path]"
proof -
  obtain r w' where t: "tryFetch remote now path w = (r, w')"
    by (cases "tryFetch remote now path w")
  have "requests w' = requests w @ [docUrl path]"
    using tryFetch_requests [of remote now path w] t by simp
  then show ?thesis
    by (simp add: refetch_def t split: sum.splits)
qed

lemma tryFetch_error:
  assumes "fetchError remote path = Some msg"
  shows "\<exists>err. tryFetch remote now path w = (Inl err, w\<lparr>requests := requests w @ [docUrl path]\<rparr>)
           \<and> errorMessage err = msg"
  using assms
  by (auto simp: fetchError_def tryFetch_def Let_def errorMessage_def
           split: sum.splits if_splits)

lemma refetch_error:
  assumes "fetchError remote path = Some msg"
  shows "refetch remote now path w =
           (placeholder path msg, w\<lparr>requests := requests w @ [docUrl path]\<rparr>)"
proof -
  obtain err where "tryFetch remote now path w = (Inl err, w\<lparr>requests := requests w @ [docUrl path]\<rparr>)"
    and "errorMessage err = msg"
    using tryFetch_error [OF assms] by blast
  then show ?thesis by (simp add: refetch_def)
qed

lemma refetch_success:
  assumes "remote (docUrl path) = Inr resp" and "ok resp" and "body resp = Inr c"
  shows "refetch remote now path w =
           (c, \<lparr>documentCache = (documentCache w)(path \<mapsto> \<lparr>content = c, timestamp = now\<rparr>),
                requests = requests w @ [docUrl path]\<rparr>)"
  using assms by (simp add: refetch_def tryFetch_def Let_def)

text \<open>
  Every call ends in one of three ways, each with a text as its result: the cached text,
  the body just fetched, or the placeholder for the error caught.
\<close>

lemma fetchDocMarkdown_outcomes:
  "(\<exists>e. documentCache w path = Some e \<and> now - timestamp e < CACHE_TTL
        \<and> fetchDocMarkdown remote now path w = (content e, w))
   \<or> (\<exists>resp c. remote (docUrl path) = Inr resp \<and> ok resp \<and> body resp = Inr c
        \<and> fst (fetchDocMarkdown remote now path w) = c)
   \<or> (\<exists>msg. fetchError remote path = Some msg
        \<and> fst (fetchDocMarkdown remote now path w) = placeholder path msg)"
proof (cases "\<exists>e. documentCache w path = Some e \<and> now - timestamp e < CACHE_TTL")
  case True
  then show ?thesis
    by (auto simp: fetchDocMarkdown_def)
next
  case False
  then have r: "fetchDocMarkdown remote now path w = refetch remote now path w"
    by (auto simp: fetchDocMarkdown_def split: option.splits)
  show ?thesis
  proof (cases "fetchError remote path")
    case (Some msg)
    then show ?thesis
      using r refetch_error [of remote path msg now w] by simp
  next
    case None
    then obtain resp c where "remote (docUrl path) = Inr resp" "ok resp" "body resp = Inr c"
      by (auto simp: fetchError_def split: sum.splits if_splits)
    then show ?thesis
      using r refetch_success [of remote path resp c now w] by simp
  qed
qed

text \<open>
  C1. \<open>fetchDocMarkdown\<close> answers from the cache, leaving the state as it is and requesting
  nothing from the remote server, if and only if the cache holds an entry for the path
  whose age \<open>now - timestamp\<close> is strictly less than 3600 seconds (3600000 ms); in every
  other case, also when an entry of age at least the TTL is present, it requests the
  document's URL.
\<close>

theorem fetchDocMarkdown_cache_freshness:
  "((\<exists>e. documentCache w path = Some e \<and> now - timestamp e < 3600 * 1000)
      \<longleftrightarrow> requests (snd (fetchDocMarkdown remote now path w)) = requests w)
   \<and> (\<forall>e. documentCache w path = Some e \<and> now - timestamp e < 3600 * 1000
          \<longrightarrow> fetchDocMarkdown remote now path w = (content e, w))
   \<and> (\<not> (\<exists>e. documentCache w path = Some e \<and> now - timestamp e < 3600 * 1000)
          \<longrightarrow> requests (snd (fetchDocMarkdown remote now path w)) = requests w @ [docUrl path])"
proof (cases "documentCache w path")
  case None
  then show ?thesis
    by (simp add: fetchDocMarkdown_def refetch_requests)
next
  case (Some e)
  then show ?thesis
    by (simp add: fetchDocMarkdown_def refetch_requests CACHE_TTL_def)
qed

theorem fetchDocMarkdown_cache_freshness_witness:
  "fetchDocMarkdown (\<lambda>u. Inl (ErrorObj ''down'')) 3599999 ''/a''
       \<lparr>documentCache = [''/a'' \<mapsto> \<lparr>content = ''doc'', timestamp = 0\<rparr>], requests = []\<rparr>
     = (''doc'', \<lparr>documentCache = [''/a'' \<mapsto> \<lparr>content = ''doc'', timestamp = 0\<rparr>], requests = []\<rparr>)
   \<and> requests (snd (fetchDocMarkdown (\<lambda>u. Inl (ErrorObj ''down'')) 3600000 ''/a''
       \<lparr>documentCache = [''/a'' \<mapsto> \<lparr>content = ''doc'', timestamp = 0\<rparr>], requests = []\<rparr>))
     = [''https://docs.paymanai.com/a.md'']"
  using fetchDocMarkdown_cache_freshness
          [of "\<lparr>documentCache = [''/a'' \<mapsto> \<lparr>content = ''doc'', timestamp = 0\<rparr>], requests = []\<rparr>"
              "''/a''" 3599999 "\<lambda>u. Inl (ErrorObj ''down'')"]
        fetchDocMarkdown_cache_freshness
          [of "\<lparr>documentCache = [''/a'' \<mapsto> \<lparr>content = ''doc'', timestamp = 0\<rparr>], requests = []\<rparr>"
              "''/a''" 3600000 "\<lambda>u. Inl (ErrorObj ''down'')"]
  by (simp add: docUrl_def)

text \<open>
  C2. \<open>fetchDocMarkdown\<close> always returns a string: every value thrown inside the \<open>try\<close> block
  is a branch of \<open>tryFetch\<close> that the \<open>catch\<close> turns into text. When the remote fetch fails
  (network failure, status outside 200..299, or unreadable body) with message \<open>msg\<close>, the
  result is the placeholder text with the path and \<open>msg\<close> in it, the cache is unchanged,
  and a following call for the path, at a time not before this one, requests the URL again.
\<close>

theorem fetchDocMarkdown_error_handling:
  assumes miss: "\<forall>e. documentCache w path = Some e \<longrightarrow> CACHE_TTL \<le> now - timestamp e"
    and failure: "fetchError remote path = Some msg"
    and later: "now \<le> now'"
  shows "fst (fetchDocMarkdown remote now path w) =
           ''Documentation content not available for path: '' @ path @ ''.md'' @ [newline]
             @ ''Error: '' @ msg
         \<and> documentCache (snd (fetchDocMarkdown remote now path w)) = documentCache w
         \<and> requests (snd (fetchDocMarkdown remote now path w)) = requests w @ [docUrl path]
         \<and> requests (snd (fetchDocMarkdown remote' now' path
                            (snd (fetchDocMarkdown remote now path w))))
             = requests w @ [docUrl path, docUrl path]"
proof -
  let ?w' = "w\<lparr>requests := requests w @ [docUrl path]\<rparr>"
  have first: "fetchDocMarkdown remote now path w = (placeholder path msg, ?w')"
    using miss refetch_error [OF failure, of now w]
    by (auto simp: fetchDocMarkdown_def split: option.splits)
  have "\<forall>e. documentCache ?w' path = Some e \<longrightarrow> CACHE_TTL \<le> now' - timestamp e"
    using miss later by auto
  then have "fetchDocMarkdown remote' now' path ?w' = refetch remote' now' path ?w'"
    by (auto simp: fetchDocMarkdown_def split: option.splits)
  then have "requests (snd (fetchDocMarkdown remote' now' path ?w'))
               = requests ?w' @ [docUrl path]"
    by (simp add: refetch_requests)
  with first show ?thesis
    by (simp add: placeholder_def)
qed

theorem fetchDocMarkdown_error_handling_witness:
  "fst (fetchDocMarkdown (\<lambda>u. Inr (Response 404 (Inr ''nope''))) 5 ''/a''
          \<lparr>documentCache = Map.empty, requests = []\<rparr>)
     = ''Documentation content not available for path: /a.md'' @ [newline]
         @ ''Error: Failed to fetch: 404''
   \<and> requests (snd (fetchDocMarkdown (\<lambda>u. Inr (Response 200 (Inr ''doc''))) 6 ''/a''
                      (snd (fetchDocMarkdown (\<lambda>u. Inr (Response 404 (Inr ''nope''))) 5 ''/a''
                              \<lparr>documentCache = Map.empty, requests = []\<rparr>))))
     = [''https://docs.paymanai.com/a.md'', ''https://docs.paymanai.com/a.md'']"
proof -
  have s: "showNat 404 = ''404''"
    by code_simp
  have f: "fetchError (\<lambda>u. Inr (Response 404 (Inr ''nope''))) ''/a''
             = Some ''Failed to fetch: 404''"
    by (simp add: fetchError_def ok_def s)
  show ?thesis
    using fetchDocMarkdown_error_handling
            [of "\<lparr>documentCache = Map.empty, requests = []\<rparr>" "''/a''" 5
                "\<lambda>u. Inr (Response 404 (Inr ''nope''))" "''Failed to fetch: 404''" 6
                "\<lambda>u. Inr (Response 200 (Inr ''doc''))", OF _ f]
    by (simp add: docUrl_def)
qed

section \<open>Properties of get-documentation\<close>

lemma fetchDocMarkdown_served_entry:
  assumes call: "fetchDocMarkdown remote now path w = (c, w')"
    and entry: "documentCache w' path = Some e"
    and fresh: "now - timestamp e < CACHE_TTL"
  shows "c = content e"
proof (cases "\<exists>e0. documentCache w path = Some e0 \<and> now - timestamp e0 < CACHE_TTL")
  case True
  then show ?thesis
    using call entry by (auto simp: fetchDocMarkdown_def)
next
  case False
  then have r: "refetch remote now path w = (c, w')"
    using call by (auto simp: fetchDocMarkdown_def split: option.splits if_splits)
  show ?thesis
  proof (cases "fetchError remote path")
    case (Some msg)
    then have "documentCache w' = documentCache w"
      using r refetch_error [of remote path msg now w] by auto
    then show ?thesis
      using False entry fresh by auto
  next
    case None
    then obtain resp c0 where "remote (docUrl path) = Inr resp" "ok resp" "body resp = Inr c0"
      by (auto simp: fetchError_def split: sum.splits if_splits)
    then show ?thesis
      using r entry refetch_success [of remote path resp c0 now w] by auto
  qed
qed

lemma fetchDocMarkdown_hit:
  assumes "documentCache w path = Some e" and "now - timestamp e < CACHE_TTL"
  shows "fetchDocMarkdown remote now path w = (content e, w)"
  using assms by (simp add: fetchDocMarkdown_def)

text \<open>
  C5. When the first \<open>get-documentation\<close> call for a topic is served from a fresh cache
  entry or fetches the document successfully, the cache afterwards holds an entry for the
  topic's path (the one served, or one stamped with the time of the call) with the first
  call inside its TTL window, and every later call for the topic inside this window,
  whatever the remote server would answer, returns the same text and leaves the state,
  and with it the log of remote requests, as it is.
\<close>

theorem get_documentation_idempotent:
  assumes first: "get_documentation remote1 now1 t w = (text1, w1)"
    and served:
      "(\<exists>e0. documentCache w (pathMap t) = Some e0 \<and> now1 - timestamp e0 < CACHE_TTL)
       \<or> (\<exists>resp c. remote1 (docUrl (pathMap t)) = Inr resp \<and> ok resp \<and> body resp = Inr c)"
  shows "\<exists>e. documentCache w1 (pathMap t) = Some e
           \<and> (documentCache w (pathMap t) = Some e \<or> timestamp e = now1)
           \<and> now1 - timestamp e < CACHE_TTL
           \<and> text1 = content e @ relatedTopicsText t
           \<and> (\<forall>now2 remote2. now2 - timestamp e < CACHE_TTL \<longrightarrow>
                 get_documentation remote2 now2 t w1 = (text1, w1))"
proof -
  obtain c where f: "fetchDocMarkdown remote1 now1 (pathMap t) w = (c, w1)"
    and t1: "text1 = c @ relatedTopicsText t"
    using first by (auto simp: get_documentation_def Let_def split: prod.splits)
  have entry: "\<exists>e. documentCache w1 (pathMap t) = Some e
           \<and> (documentCache w (pathMap t) = Some e \<or> timestamp e = now1)
           \<and> now1 - timestamp e < CACHE_TTL \<and> c = content e"
  proof (cases "\<exists>e0. documentCache w (pathMap t) = Some e0 \<and> now1 - timestamp e0 < CACHE_TTL")
    case True
    then obtain e0 where e0: "documentCache w (pathMap t) = Some e0"
      "now1 - timestamp e0 < CACHE_TTL"
      by blast
    have "(c, w1) = (content e0, w)"
      using fetchDocMarkdown_hit [OF e0, of remote1] f by simp
    then show ?thesis
      using e0 by auto
  next
    case False
    then obtain resp c0 where ok: "remote1 (docUrl (pathMap t)) = Inr resp" "ok resp"
      "body resp = Inr c0"
      using served by blast
    have "fetchDocMarkdown remote1 now1 (pathMap t) w = refetch remote1 now1 (pathMap t) w"
      using False by (auto simp: fetchDocMarkdown_def split: option.splits)
    then have "(c, w1) =
        (c0, \<lparr>documentCache = (documentCache w)(pathMap t \<mapsto> \<lparr>content = c0, timestamp = now1\<rparr>),
              requests = requests w @ [docUrl (pathMap t)]\<rparr>)"
      using refetch_success [of remote1 "pathMap t" resp c0 now1 w] ok f by simp
    then show ?thesis
      by (auto simp: CACHE_TTL_def)
  qed
  then obtain e where e: "documentCache w1 (pathMap t) = Some e"
    and origin: "documentCache w (pathMap t) = Some e \<or> timestamp e = now1"
    and window1: "now1 - timestamp e < CACHE_TTL"
    and c: "c = content e"
    by blast
  have second: "get_documentation remote2 now2 t w1 = (text1, w1)"
    if "now2 - timestamp e < CACHE_TTL" for now2 remote2
    using fetchDocMarkdown_hit [OF e that, of remote2] t1 c
    by (simp add: get_documentation_def)
  show ?thesis
    using e origin window1 t1 c second by blast
qed

theorem get_documentation_idempotent_witness:
  "get_documentation (\<lambda>u. Inl (ErrorObj ''down'')) 3599999 CheckBalances
       \<lparr>documentCache = [''/sdks/check-balances'' \<mapsto> \<lparr>content = ''doc'', timestamp = 0\<rparr>],
        requests = [''https://docs.paymanai.com/sdks/check-balances.md'']\<rparr>
     = (''doc'' @ relatedTopicsText CheckBalances,
        \<lparr>documentCache = [''/sdks/check-balances'' \<mapsto> \<lparr>content = ''doc'', timestamp = 0\<rparr>],
         requests = [''https://docs.paymanai.com/sdks/check-balances.md'']\<rparr>)"
proof -
  let ?w1 = "\<lparr>documentCache = [''/sdks/check-balances'' \<mapsto> \<lparr>content = ''doc'', timestamp = 0\<rparr>],
              requests = [''https://docs.paymanai.com/sdks/check-balances.md'']\<rparr>"
  let ?up = "\<lambda>u::string. (Inr (Response 200 (Inr ''doc'')) :: thrown + response)"
  have first: "get_documentation ?up 0 CheckBalances \<lparr>documentCache = Map.empty, requests = []\<rparr>
               = (''doc'' @ relatedTopicsText CheckBalances, ?w1)"
    by (simp add: get_documentation_def fetchDocMarkdown_def refetch_def tryFetch_def
          ok_def docUrl_def)
  have served:
    "(\<exists>e0. documentCache \<lparr>documentCache = Map.empty, requests = []\<rparr> (pathMap CheckBalances) = Some e0
           \<and> 0 - timestamp e0 < CACHE_TTL)
     \<or> (\<exists>resp c. ?up (docUrl (pathMap CheckBalances)) = Inr resp \<and> ok resp \<and> body resp = Inr c)"
    by (simp add: ok_def)
  obtain e where e: "documentCache ?w1 (pathMap CheckBalances) = Some e"
    and second: "\<forall>now2 remote2. now2 - timestamp e < CACHE_TTL \<longrightarrow>
                   get_documentation remote2 now2 CheckBalances ?w1
                     = (''doc'' @ relatedTopicsText CheckBalances, ?w1)"
    using get_documentation_idempotent [OF first served] by blast
  have "timestamp e = 0"
    using e by auto
  then have "3599999 - timestamp e < CACHE_TTL"
    by (simp add: CACHE_TTL_def)
  then show ?thesis
    using second by blast
qed

section \<open>Properties of solve-problem\<close>

lemma indexOf_range: "indexOf s t = - 1 \<or> 0 \<le> indexOf s t"
  by (induction s) (auto simp: Let_def)

lemma includesStr_Nil [simp]: "includesStr [] t \<longleftrightarrow> t = []"
  by (simp add: includesStr_def)

lemma includesStr_Cons:
  "includesStr (c # s) t \<longleftrightarrow> prefix t (c # s) \<or> includesStr s t"
  using indexOf_range [of s t] by (auto simp: includesStr_def Let_def)

lemma includesStr_sublist: "includesStr s t \<longleftrightarrow> sublist t s"
  by (induction s) (auto simp: includesStr_Cons sublist_Cons_right)

lemma foldl_setAdd:
  "foldl setAdd acc xs = acc @ firstSeen (filter (\<lambda>x. x \<notin> set acc) xs)"
proof (induction xs arbitrary: acc)
  case Nil
  then show ?case by simp
next
  case (Cons x xs)
  have swap: "filter (\<lambda>y. y \<notin> set acc \<and> y \<noteq> x) xs = filter (\<lambda>y. y \<noteq> x \<and> y \<notin> set acc) xs"
    by (rule filter_cong) auto
  show ?case
  proof (cases "x \<in> set acc")
    case True
    then have "setAdd acc x = acc"
      by (simp add: setAdd_def)
    then show ?thesis
      using True by (simp add: Cons.IH)
  next
    case False
    then have "setAdd acc x = acc @ [x]"
      by (simp add: setAdd_def)
    then show ?thesis
      using False swap by (simp add: Cons.IH)
  qed
qed

lemma newSet_firstSeen: "newSet xs = firstSeen xs"
  by (simp add: newSet_def foldl_setAdd)

lemma set_firstSeen: "set (firstSeen xs) = set xs"
proof (induction xs rule: firstSeen.induct)
  case 1
  then show ?case by simp
next
  case (2 x xs)
  then show ?case by auto
qed

lemma distinct_firstSeen: "distinct (firstSeen xs)"
proof (induction xs rule: firstSeen.induct)
  case 1
  then show ?case by simp
next
  case (2 x xs)
  then show ?case by (simp add: set_firstSeen)
qed

lemma keywords_lower:
  "\<forall>cat \<in> set problemCategories. \<forall>k \<in> set (keywords cat). toLowerCase k = k"
  unfolding problemCategories_def by code_simp


lemma matchingCategories_sublist:
  "matchingCategories problem =
     filter (\<lambda>cat. \<exists>k \<in> set (keywords cat). sublist (toLowerCase k) (toLowerCase problem))
       problemCategories"
proof -
  have "filter (\<lambda>cat. list_ex (\<lambda>k. includesStr (toLowerCase problem) k) (keywords cat))
          problemCategories
        = filter (\<lambda>cat. \<exists>k \<in> set (keywords cat). sublist (toLowerCase k) (toLowerCase problem))
            problemCategories"
  proof (rule filter_cong [OF refl])
    fix cat
    assume "cat \<in> set problemCategories"
    then have "\<forall>k \<in> set (keywords cat). toLowerCase k = k"
      using keywords_lower by blast
    then show "list_ex (\<lambda>k. includesStr (toLowerCase problem) k) (keywords cat)
                 \<longleftrightarrow> (\<exists>k \<in> set (keywords cat). sublist (toLowerCase k) (toLowerCase problem))"
      by (simp add: list_ex_iff includesStr_sublist)
  qed
  then show ?thesis
    by (simp add: matchingCategories_def)
qed

lemma matching_401:
  "map category (matchingCategories ''I got a 401 unauthorized error'')
     = [''Authentication'', ''Error Handling'']"
  by code_simp

lemma uniqueTopics_401:
  "uniqueTopics ''I got a 401 unauthorized error'' = [ApiKeys, ErrorHandling, ApiReference]"
  by code_simp

text \<open>
  C7. The categories consulted are those with a keyword contained, ignoring case, in the
  problem text. When there is one, the topics consulted are the topics of these categories
  in first-seen order, each once, so their set is the union; when there is none, they are
  error-handling, api-reference and quickstart. For "I got a 401 unauthorized error" the
  Authentication category matches and api-keys is among the topics consulted.
\<close>

theorem solve_problem_routing:
  "matchingCategories problem =
     filter (\<lambda>cat. \<exists>k \<in> set (keywords cat). sublist (toLowerCase k) (toLowerCase problem))
       problemCategories
   \<and> (matchingCategories problem \<noteq> [] \<longrightarrow>
        uniqueTopics problem = firstSeen (concat (map topics (matchingCategories problem)))
        \<and> set (uniqueTopics problem) = (\<Union>cat \<in> set (matchingCategories problem). set (topics cat)))
   \<and> (matchingCategories problem = [] \<longrightarrow>
        uniqueTopics problem = [ErrorHandling, ApiReference, Quickstart])
   \<and> distinct (uniqueTopics problem)
   \<and> ''Authentication'' \<in> set (map category (matchingCategories ''I got a 401 unauthorized error''))
   \<and> ''api-keys'' \<in> set (map topicId (uniqueTopics ''I got a 401 unauthorized error''))"
proof -
  have u: "uniqueTopics problem = firstSeen (topicsToConsult problem)"
    by (simp add: uniqueTopics_def newSet_firstSeen)
  have a: "matchingCategories problem \<noteq> [] \<longrightarrow>
        uniqueTopics problem = firstSeen (concat (map topics (matchingCategories problem)))
        \<and> set (uniqueTopics problem) = (\<Union>cat \<in> set (matchingCategories problem). set (topics cat))"
    by (auto simp: u topicsToConsult_def set_firstSeen)
  have b: "matchingCategories problem = [] \<longrightarrow>
        uniqueTopics problem = [ErrorHandling, ApiReference, Quickstart]"
    by (simp add: u topicsToConsult_def)
  have c: "distinct (uniqueTopics problem)"
    by (simp add: u distinct_firstSeen)
  have d: "''Authentication'' \<in> set (map category (matchingCategories ''I got a 401 unauthorized error''))"
    unfolding matching_401 by simp
  have e: "''api-keys'' \<in> set (map topicId (uniqueTopics ''I got a 401 unauthorized error''))"
    unfolding uniqueTopics_401 by simp
  show ?thesis
    using matchingCategories_sublist [of problem] a b c d e by blast
qed

theorem solve_problem_routing_witness:
  "uniqueTopics ''Payment to my payee failed'' = [SendPayments, ErrorHandling, CreatePayee, CreatePayees, ApiReference]
   \<and> uniqueTopics ''hello'' = [ErrorHandling, ApiReference, Quickstart]"
proof -
  have m1: "map category (matchingCategories ''Payment to my payee failed'')
              = [''Payments'', ''Payees'', ''Error Handling'']"
    by code_simp
  have t1: "firstSeen (concat (map topics (matchingCategories ''Payment to my payee failed'')))
              = [SendPayments, ErrorHandling, CreatePayee, CreatePayees, ApiReference]"
    by code_simp
  have m2: "matchingCategories ''hello'' = []"
    by code_simp
  have n1: "matchingCategories ''Payment to my payee failed'' \<noteq> []"
    using m1 by auto
  show ?thesis
    using solve_problem_routing [of "''Payment to my payee failed''"]
          solve_problem_routing [of "''hello''"] n1 t1 m2
    by simp
qed


section \<open>Properties of get-sdk-help\<close>

lemma findIndex_range: "findIndex p xs = - 1 \<or> 0 \<le> findIndex p xs"
  by (induction xs) (auto simp: Let_def)

lemma findIndex_none: "findIndex p xs = - 1 \<longleftrightarrow> (\<forall>x \<in> set xs. \<not> p x)"
proof (induction xs)
  case Nil
  then show ?case by simp
next
  case (Cons x xs)
  then show ?case
    using findIndex_range [of p xs] by (auto simp: Let_def)
qed

lemma findIndex_first:
  assumes "findIndex p xs \<noteq> - 1"
  shows "nat (findIndex p xs) < length xs \<and> p (xs ! nat (findIndex p xs))
         \<and> (\<forall>j < nat (findIndex p xs). \<not> p (xs ! j))"
  using assms
proof (induction xs)
  case Nil
  then show ?case by simp
next
  case (Cons x xs)
  show ?case
  proof (cases "p x")
    case True
    then show ?thesis by simp
  next
    case False
    then have ne: "findIndex p xs \<noteq> - 1"
      using Cons.prems by (auto simp: Let_def split: if_splits)
    then have nn: "0 \<le> findIndex p xs"
      using findIndex_range [of p xs] by auto
    have eq: "nat (findIndex p (x # xs)) = Suc (nat (findIndex p xs))"
      using False nn by (simp add: Let_def nat_add_distrib)
    have ih: "nat (findIndex p xs) < length xs \<and> p (xs ! nat (findIndex p xs))
         \<and> (\<forall>j < nat (findIndex p xs). \<not> p (xs ! j))"
      using Cons.IH [OF ne] .
    show ?thesis
      unfolding eq using ih False by (auto simp: less_Suc_eq_0_disj)
  qed
qed

lemma findIndex_unique:
  assumes "f < length xs" and "p (xs ! f)" and "\<forall>j < f. \<not> p (xs ! j)"
  shows "findIndex p xs = int f"
proof -
  have ne: "findIndex p xs \<noteq> - 1"
    using assms(1,2) by (auto simp: findIndex_none)
  let ?g = "nat (findIndex p xs)"
  have g: "?g < length xs \<and> p (xs ! ?g) \<and> (\<forall>j < ?g. \<not> p (xs ! j))"
    using findIndex_first [OF ne] .
  have "?g = f"
    using g assms by (meson linorder_neqE_nat)
  moreover have "0 \<le> findIndex p xs"
    using ne findIndex_range [of p xs] by auto
  ultimately show ?thesis by simp
qed

lemma headingIndex_le: "headingIndex lines f \<le> f"
  by (induction f) auto

lemma headingIndex_heading:
  "headingIndex lines f = 0 \<or> startsWith (lines ! headingIndex lines f) ''#''"
  by (induction f) auto

lemma headingIndex_nearest:
  "headingIndex lines f < j \<Longrightarrow> j \<le> f \<Longrightarrow> \<not> startsWith (lines ! j) ''#''"
proof (induction f)
  case 0
  then show ?case by simp
next
  case (Suc n)
  then show ?case
    by (cases "j = Suc n") (auto split: if_splits)
qed

lemma headingIndex_unique:
  assumes "h \<le> f" and "h = 0 \<or> startsWith (lines ! h) ''#''"
    and "\<forall>j. h < j \<and> j \<le> f \<longrightarrow> \<not> startsWith (lines ! j) ''#''"
  shows "headingIndex lines f = h"
proof (rule ccontr)
  assume ne: "headingIndex lines f \<noteq> h"
  show False
  proof (cases "headingIndex lines f < h")
    case True
    then have "\<not> startsWith (lines ! h) ''#''"
      using headingIndex_nearest [of lines f h] assms(1) by simp
    with True assms(2) show False by auto
  next
    case False
    with ne have lt: "h < headingIndex lines f" by simp
    then have "\<not> startsWith (lines ! headingIndex lines f) ''#''"
      using assms(3) headingIndex_le [of lines f] by simp
    with lt headingIndex_heading [of lines f] show False by auto
  qed
qed

lemma sublist_join: "x \<in> set xs \<Longrightarrow> sublist x (join sep xs)"
proof (induction sep xs rule: join.induct)
  case (1 sep)
  then show ?case by simp
next
  case (2 sep y)
  then show ?case by simp
next
  case (3 sep y z zs)
  show ?case
  proof (cases "x = y")
    case True
    then show ?thesis by simp
  next
    case False
    then have "sublist x (join sep (z # zs))"
      using 3 by simp
    then obtain a b where "join sep (z # zs) = a @ x @ b"
      by (auto simp: sublist_def)
    then have "join sep (y # z # zs) = (y @ sep @ a) @ x @ b"
      by simp
    then show ?thesis
      unfolding sublist_def by blast
  qed
qed

lemma toLowerCase_join:
  "toLowerCase (join [newline] xs) = join [newline] (map toLowerCase xs)"
proof (induction "[newline]" xs rule: join.induct)
  case 1
  then show ?case by (simp add: toLowerCase_def)
next
  case (2 x)
  then show ?case by simp
next
  case (3 x y ys)
  have "toLowerChar newline = newline"
    by code_simp
  then show ?case
    using 3 by (simp add: toLowerCase_def)
qed

lemma slice_upt:
  "slice xs a b = map (\<lambda>i. xs ! i) [a ..< min (length xs) b]"
proof -
  have "take (b - a) (drop a xs) = map (\<lambda>i. xs ! i) [a ..< min (length xs) b]"
  proof (rule nth_equalityI)
    show "length (take (b - a) (drop a xs)) = length (map (\<lambda>i. xs ! i) [a ..< min (length xs) b])"
      by auto
  next
    fix i
    assume "i < length (take (b - a) (drop a xs))"
    then have lt: "i < min (length xs) b - a" and ltb: "i < b - a" and lta: "a + i \<le> length xs"
      by auto
    have "a + i < min (length xs) b"
      using lt by arith
    then have "[a ..< min (length xs) b] ! i = a + i"
      by (rule nth_upt)
    then have "map (\<lambda>i. xs ! i) [a ..< min (length xs) b] ! i = xs ! (a + i)"
      using lt by simp
    moreover have "take (b - a) (drop a xs) ! i = xs ! (a + i)"
      using ltb lta by simp
    ultimately show "take (b - a) (drop a xs) ! i = map (\<lambda>i. xs ! i) [a ..< min (length xs) b] ! i"
      by simp
  qed
  then show ?thesis by (simp add: slice_def)
qed

lemma excerpt_includes_feature:
  assumes "f < length lines" and "h \<le> f"
    and "includesStr (toLowerCase (lines ! f)) q"
  shows "includesStr (toLowerCase (join [newline] (slice lines h (f + 20)))) q"
proof -
  have "f \<in> set [h ..< min (length lines) (f + 20)]"
    using assms(1,2) by simp
  then have "lines ! f \<in> set (slice lines h (f + 20))"
    unfolding slice_upt by (metis (no_types, lifting) image_eqI set_map)
  then have "sublist (toLowerCase (lines ! f))
               (join [newline] (map toLowerCase (slice lines h (f + 20))))"
    by (intro sublist_join) simp
  moreover have "sublist q (toLowerCase (lines ! f))"
    using assms(3) by (simp add: includesStr_sublist)
  ultimately show ?thesis
    unfolding includesStr_sublist toLowerCase_join
    using sublist_order.order_trans by blast
qed

text \<open>What a non-null result of one topic is made of.\<close>

lemma sdkHelpDoc_Some:
  assumes "sdkHelpDoc s feature t c = Some r"
  shows "\<exists>f. f < length (splitLines c)
           \<and> includesStr (toLowerCase (splitLines c ! f)) (toLowerCase feature)
           \<and> (\<forall>j < f. \<not> includesStr (toLowerCase (splitLines c ! j)) (toLowerCase feature))
           \<and> relevant s feature c
           \<and> r = \<lparr>h_topic = t,
                   h_heading = splitLines c ! headingIndex (splitLines c) f,
                   h_content = join [newline]
                     (slice (splitLines c) (headingIndex (splitLines c) f) (f + 20)),
                   h_relevance =
                     (if includesStr (toLowerCase c) (sdkName s) then 2 else 1)
                     + (if includesStr
                            (toLowerCase (join [newline]
                               (slice (splitLines c) (headingIndex (splitLines c) f) (f + 20))))
                            (toLowerCase feature)
                        then 3 else 0)\<rparr>"
proof -
  let ?p = "\<lambda>line. includesStr (toLowerCase line) (toLowerCase feature)"
  let ?f = "findIndex ?p (splitLines c)"
  have rel: "relevant s feature c" and ne: "?f \<noteq> - 1"
    using assms by (auto simp: sdkHelpDoc_def Let_def split: if_splits)
  have first: "nat ?f < length (splitLines c) \<and> ?p (splitLines c ! nat ?f)
         \<and> (\<forall>j < nat ?f. \<not> ?p (splitLines c ! j))"
    using findIndex_first [OF ne] .
  have "r = \<lparr>h_topic = t,
             h_heading = splitLines c ! headingIndex (splitLines c) (nat ?f),
             h_content = join [newline]
               (slice (splitLines c) (headingIndex (splitLines c) (nat ?f)) (nat ?f + 20)),
             h_relevance =
               (if includesStr (toLowerCase c) (sdkName s) then 2 else 1)
               + (if includesStr
                      (toLowerCase (join [newline]
                         (slice (splitLines c) (headingIndex (splitLines c) (nat ?f)) (nat ?f + 20))))
                      (toLowerCase feature)
                  then 3 else 0)\<rparr>"
    using assms rel ne by (simp add: sdkHelpDoc_def Let_def)
  with first rel show ?thesis by blast
qed

lemma set_map_filter: "set (List.map_filter f xs) = {y. \<exists>x \<in> set xs. f x = Some y}"
  by (induction xs) (auto simp: map_filter_simps split: option.splits)

lemma set_helpCandidates:
  "r \<in> set (helpCandidates s feature contents) \<longleftrightarrow>
     (\<exists>t c. (t, c) \<in> set (zip sdkTopics contents) \<and> sdkHelpDoc s feature t c = Some r)"
  by (force simp: helpCandidates_def set_map_filter)

lemma set_helpResults:
  "set (helpResults s feature contents) = set (helpCandidates s feature contents)"
  by (simp add: helpResults_def)


lemma helpCandidates_scan_order:
  "subseq (map h_topic (List.map_filter (\<lambda>(t, c). sdkHelpDoc s feature t c) (zip ts cs))) ts"
proof (induction ts arbitrary: cs)
  case Nil
  then show ?case by (simp add: map_filter_simps)
next
  case (Cons t ts)
  show ?case
  proof (cases cs)
    case Nil
    then show ?thesis by (simp add: map_filter_simps)
  next
    case (Cons c cs')
    show ?thesis
    proof (cases "sdkHelpDoc s feature t c")
      case None
      then show ?thesis
        using Cons list_emb_Cons [OF Cons.IH [of cs'], of t] by (simp add: map_filter_simps)
    next
      case (Some r)
      then have "h_topic r = t"
        using sdkHelpDoc_Some [OF Some] by auto
      then show ?thesis
        using Some Cons Cons.IH [of cs'] by (simp add: map_filter_simps)
    qed
  qed
qed

text \<open>
  C8 as stated fails: the excerpt ends with line \<open>featureIndex + 19\<close>, since the end index
  \<open>featureIndex + 20\<close> of \<open>slice\<close> is exclusive. In the 22-line document the feature is on
  line 0 and the excerpt is lines 0 to 19, without line 20.
\<close>

theorem get_sdk_help_excerpt_counterexample:
  "map_option h_content (sdkHelpDoc Python ''pay'' SetupAndInstallation numberedDoc)
     = Some (join [newline] (''python pay'' # map showNat [1 ..< 20]))
   \<and> excerptThrough20Past ''pay'' numberedDoc
     = join [newline] (''python pay'' # map showNat [1 ..< 21])
   \<and> map_option h_content (sdkHelpDoc Python ''pay'' SetupAndInstallation numberedDoc)
     \<noteq> Some (excerptThrough20Past ''pay'' numberedDoc)"
  by code_simp

text \<open>
  C8, amended. A topic yields no result exactly when the relevance test fails or no line
  contains the feature string (ignoring case). Otherwise, with \<open>f\<close> the first line that
  contains the feature string and \<open>h\<close> the nearest line at or above \<open>f\<close> that begins with
  \<open>#\<close> (line 0 if there is none), the heading is line \<open>h\<close> and the excerpt is the lines \<open>h\<close>
  to \<open>f + 19\<close> (as far as the document has them), joined by newlines.
\<close>

theorem get_sdk_help_excerpt:
  "(sdkHelpDoc s feature t c = None \<longleftrightarrow>
      \<not> relevant s feature c
      \<or> (\<forall>l \<in> set (splitLines c). \<not> sublist (toLowerCase feature) (toLowerCase l)))
   \<and> (relevant s feature c
       \<and> f < length (splitLines c)
       \<and> sublist (toLowerCase feature) (toLowerCase (splitLines c ! f))
       \<and> (\<forall>j < f. \<not> sublist (toLowerCase feature) (toLowerCase (splitLines c ! j)))
       \<and> h \<le> f
       \<and> (h = 0 \<or> startsWith (splitLines c ! h) ''#'')
       \<and> (\<forall>j. h < j \<and> j \<le> f \<longrightarrow> \<not> startsWith (splitLines c ! j) ''#'')
       \<longrightarrow> (\<exists>r. sdkHelpDoc s feature t c = Some r
                \<and> h_topic r = t
                \<and> h_heading r = splitLines c ! h
                \<and> h_content r =
                    join [newline]
                      (map (\<lambda>i. splitLines c ! i) [h ..< min (length (splitLines c)) (f + 20)])))"
proof -
  let ?p = "\<lambda>line. includesStr (toLowerCase line) (toLowerCase feature)"
  have none: "sdkHelpDoc s feature t c = None \<longleftrightarrow>
      \<not> relevant s feature c
      \<or> (\<forall>l \<in> set (splitLines c). \<not> sublist (toLowerCase feature) (toLowerCase l))"
    using findIndex_none [of ?p "splitLines c"]
    by (auto simp: sdkHelpDoc_def Let_def includesStr_sublist)
  have some: "\<exists>r. sdkHelpDoc s feature t c = Some r
                \<and> h_topic r = t
                \<and> h_heading r = splitLines c ! h
                \<and> h_content r =
                    join [newline]
                      (map (\<lambda>i. splitLines c ! i) [h ..< min (length (splitLines c)) (f + 20)])"
    if rel: "relevant s feature c"
      and f: "f < length (splitLines c)" "sublist (toLowerCase feature) (toLowerCase (splitLines c ! f))"
             "\<forall>j < f. \<not> sublist (toLowerCase feature) (toLowerCase (splitLines c ! j))"
      and h: "h \<le> f" "h = 0 \<or> startsWith (splitLines c ! h) ''#''"
             "\<forall>j. h < j \<and> j \<le> f \<longrightarrow> \<not> startsWith (splitLines c ! j) ''#''"
  proof -
    have fi: "findIndex ?p (splitLines c) = int f"
      using f by (intro findIndex_unique) (auto simp: includesStr_sublist)
    have hi: "headingIndex (splitLines c) f = h"
      using h by (rule headingIndex_unique)
    show ?thesis
      using rel fi hi by (simp add: sdkHelpDoc_def Let_def slice_upt)
  qed
  show ?thesis
    using none some by blast
qed

theorem get_sdk_help_excerpt_witness:
  "\<exists>r. sdkHelpDoc Python ''pay'' SetupAndInstallation numberedDoc = Some r
     \<and> h_topic r = SetupAndInstallation
     \<and> h_heading r = splitLines numberedDoc ! 0
     \<and> h_content r =
         join [newline] (map (\<lambda>i. splitLines numberedDoc ! i) [0 ..< min (length (splitLines numberedDoc)) 20])"
proof -
  have rel: "relevant Python ''pay'' numberedDoc"
    by code_simp
  have len: "0 < length (splitLines numberedDoc)"
    by code_simp
  have hit: "sublist (toLowerCase ''pay'') (toLowerCase (splitLines numberedDoc ! 0))"
    unfolding includesStr_sublist [symmetric] by code_simp
  show ?thesis
    using get_sdk_help_excerpt [of Python "''pay''" SetupAndInstallation numberedDoc 0 0] rel len hit
    by simp
qed

text \<open>
  C9. Every result's score is 2 or 1, according to whether the lower-cased document
  contains the sdk name, plus 3 if the excerpt contains the feature string (ignoring
  case). The results are in non-increasing score order, and the results of each score
  keep the order they have among the unsorted results, which is the order of \<open>sdkTopics\<close>.
\<close>

theorem get_sdk_help_scoring_order:
  "(\<forall>r \<in> set (helpResults s feature contents).
      \<exists>t c. (t, c) \<in> set (zip sdkTopics contents)
        \<and> sdkHelpDoc s feature t c = Some r
        \<and> h_topic r = t
        \<and> h_relevance r =
            (if includesStr (toLowerCase c) (sdkName s) then 2 else 1)
            + (if includesStr (toLowerCase (h_content r)) (toLowerCase feature) then 3 else 0))
   \<and> sorted_wrt (\<lambda>a b. h_relevance b \<le> h_relevance a) (helpResults s feature contents)
   \<and> (\<forall>k. filter (\<lambda>r. h_relevance r = k) (helpResults s feature contents)
          = filter (\<lambda>r. h_relevance r = k) (helpCandidates s feature contents))
   \<and> subseq (map h_topic (helpCandidates s feature contents)) sdkTopics"
proof -
  have score: "\<forall>r \<in> set (helpResults s feature contents).
      \<exists>t c. (t, c) \<in> set (zip sdkTopics contents)
        \<and> sdkHelpDoc s feature t c = Some r
        \<and> h_topic r = t
        \<and> h_relevance r =
            (if includesStr (toLowerCase c) (sdkName s) then 2 else 1)
            + (if includesStr (toLowerCase (h_content r)) (toLowerCase feature) then 3 else 0)"
  proof
    fix r
    assume "r \<in> set (helpResults s feature contents)"
    then obtain t c where tc: "(t, c) \<in> set (zip sdkTopics contents)"
      and some: "sdkHelpDoc s feature t c = Some r"
      by (auto simp: set_helpResults set_helpCandidates)
    have "h_topic r = t
        \<and> h_relevance r =
            (if includesStr (toLowerCase c) (sdkName s) then 2 else 1)
            + (if includesStr (toLowerCase (h_content r)) (toLowerCase feature) then 3 else 0)"
      using sdkHelpDoc_Some [OF some] by auto
    with tc some show "\<exists>t c. (t, c) \<in> set (zip sdkTopics contents)
        \<and> sdkHelpDoc s feature t c = Some r
        \<and> h_topic r = t
        \<and> h_relevance r =
            (if includesStr (toLowerCase c) (sdkName s) then 2 else 1)
            + (if includesStr (toLowerCase (h_content r)) (toLowerCase feature) then 3 else 0)"
      by blast
  qed
  have "sorted (map (\<lambda>r. - int (h_relevance r)) (helpResults s feature contents))"
    by (simp add: helpResults_def)
  then have order: "sorted_wrt (\<lambda>a b. h_relevance b \<le> h_relevance a) (helpResults s feature contents)"
    by (simp add: sorted_map)
  have stable: "filter (\<lambda>r. h_relevance r = k) (helpResults s feature contents)
          = filter (\<lambda>r. h_relevance r = k) (helpCandidates s feature contents)" for k
    using sort_key_stable [of "\<lambda>r. - int (h_relevance r)" "- int k" "helpCandidates s feature contents"]
    by (simp add: helpResults_def)
  have scan: "subseq (map h_topic (helpCandidates s feature contents)) sdkTopics"
    unfolding helpCandidates_def by (rule helpCandidates_scan_order)
  show ?thesis
    using score order stable scan by blast
qed

theorem get_sdk_help_scoring_order_witness:
  "map h_relevance (helpResults Python ''pay'' [''py pay'', ''python pay'', ''py pay again'']) = [5, 4, 4]
   \<and> map h_topic (filter (\<lambda>r. h_relevance r = 4)
        (helpResults Python ''pay'' [''py pay'', ''python pay'', ''py pay again'']))
     = [SetupAndInstallation, SendPayments]"
proof -
  have r: "map h_relevance (helpResults Python ''pay'' [''py pay'', ''python pay'', ''py pay again''])
             = [5, 4, 4]"
    by code_simp
  have c: "map h_topic (filter (\<lambda>r. h_relevance r = 4)
             (helpCandidates Python ''pay'' [''py pay'', ''python pay'', ''py pay again'']))
           = [SetupAndInstallation, SendPayments]"
    by code_simp
  show ?thesis
    using get_sdk_help_scoring_order
            [of Python "''pay''" "[''py pay'', ''python pay'', ''py pay again'']"] r c
    by simp
qed

text \<open>
  C10. Every result of \<open>get-sdk-help\<close> has score 4 or 5: its excerpt holds the feature line,
  so it contains the feature string and the bonus of 3 always applies, on top of 1 or 2.
\<close>

theorem get_sdk_help_score_range:
  "\<forall>r \<in> set (helpResults s feature contents).
     includesStr (toLowerCase (h_content r)) (toLowerCase feature)
     \<and> (h_relevance r = 4 \<or> h_relevance r = 5)"
proof
  fix r
  assume "r \<in> set (helpResults s feature contents)"
  then obtain t c where some: "sdkHelpDoc s feature t c = Some r"
    by (auto simp: set_helpResults set_helpCandidates)
  let ?lines = "splitLines c"
  obtain f where f: "f < length ?lines"
    and hit: "includesStr (toLowerCase (?lines ! f)) (toLowerCase feature)"
    and r: "r = \<lparr>h_topic = t,
                 h_heading = ?lines ! headingIndex ?lines f,
                 h_content = join [newline] (slice ?lines (headingIndex ?lines f) (f + 20)),
                 h_relevance =
                   (if includesStr (toLowerCase c) (sdkName s) then 2 else 1)
                   + (if includesStr
                          (toLowerCase (join [newline] (slice ?lines (headingIndex ?lines f) (f + 20))))
                          (toLowerCase feature)
                      then 3 else 0)\<rparr>"
    using sdkHelpDoc_Some [OF some] by blast
  have inc: "includesStr
               (toLowerCase (join [newline] (slice ?lines (headingIndex ?lines f) (f + 20))))
               (toLowerCase feature)"
    using excerpt_includes_feature [OF f headingIndex_le hit] .
  show "includesStr (toLowerCase (h_content r)) (toLowerCase feature)
     \<and> (h_relevance r = 4 \<or> h_relevance r = 5)"
    using inc by (simp add: r)
qed

theorem get_sdk_help_score_range_witness:
  "helpResults Python ''pay'' [''py pay'', ''python pay''] \<noteq> []
   \<and> includesStr (toLowerCase (h_content (hd (helpResults Python ''pay'' [''py pay'', ''python pay''])))) ''pay''
   \<and> (h_relevance (hd (helpResults Python ''pay'' [''py pay'', ''python pay''])) = 4
      \<or> h_relevance (hd (helpResults Python ''pay'' [''py pay'', ''python pay''])) = 5)"
proof -
  have ne: "helpResults Python ''pay'' [''py pay'', ''python pay''] \<noteq> []"
    by code_simp
  then have "hd (helpResults Python ''pay'' [''py pay'', ''python pay''])
               \<in> set (helpResults Python ''pay'' [''py pay'', ''python pay''])"
    by simp
  moreover have "toLowerCase ''pay'' = ''pay''"
    by code_simp
  ultimately show ?thesis
    using get_sdk_help_score_range [of Python "''pay''" "[''py pay'', ''python pay'']"] ne
    by auto
qed


section \<open>Properties of search-documentation\<close>

lemma refetch_cache_other:
  "q \<noteq> p \<Longrightarrow> documentCache (snd (refetch remote now q w)) p = documentCache w p"
  by (simp add: refetch_def tryFetch_def Let_def split: sum.splits)

lemma fetchDocMarkdown_cache_other:
  "q \<noteq> p \<Longrightarrow> documentCache (snd (fetchDocMarkdown remote now q w)) p = documentCache w p"
  by (simp add: fetchDocMarkdown_def refetch_cache_other split: option.splits)

lemma refetch_fst: "fst (refetch remote now p w1) = fst (refetch remote now p w2)"
  by (simp add: refetch_def tryFetch_def Let_def split: sum.splits)

lemma fetchDocMarkdown_fst_cong:
  assumes "documentCache w1 p = documentCache w2 p"
  shows "fst (fetchDocMarkdown remote now p w1) = fst (fetchDocMarkdown remote now p w2)"
  using assms refetch_fst [of remote now p w1 w2]
  by (simp add: fetchDocMarkdown_def split: option.splits)

text \<open>
  With pairwise different paths, every document fetched by \<open>fetchAll\<close> is the one
  \<open>fetchDocMarkdown\<close> returns for its path in the state before the handler call.
\<close>

lemma fetchAll_contents:
  assumes "distinct ps" and "\<forall>p \<in> set ps. documentCache w' p = documentCache w p"
  shows "fst (fetchAll remote now ps w') = map (\<lambda>p. fst (fetchDocMarkdown remote now p w)) ps"
  using assms
proof (induction ps arbitrary: w')
  case Nil
  then show ?case by simp
next
  case (Cons p ps)
  obtain c w1 where f: "fetchDocMarkdown remote now p w' = (c, w1)"
    by (cases "fetchDocMarkdown remote now p w'")
  have c: "c = fst (fetchDocMarkdown remote now p w)"
    using fetchDocMarkdown_fst_cong [of w' p w remote now] Cons.prems(2) f by simp
  have "\<forall>q \<in> set ps. documentCache w1 q = documentCache w q"
  proof
    fix q
    assume q: "q \<in> set ps"
    then have "p \<noteq> q"
      using Cons.prems(1) by auto
    then have "documentCache w1 q = documentCache w' q"
      using fetchDocMarkdown_cache_other [of p q remote now w'] f by simp
    then show "documentCache w1 q = documentCache w q"
      using Cons.prems(2) q by simp
  qed
  then have "fst (fetchAll remote now ps w1) = map (\<lambda>p. fst (fetchDocMarkdown remote now p w)) ps"
    using Cons.IH [of w1] Cons.prems(1) by simp
  then show ?case
    using f c by (cases "fetchAll remote now ps w1") simp
qed

lemma distinct_paths: "distinct (map pathMap pathMapKeys)"
  by (simp add: pathMapKeys_def)

lemma distinct_pathMapKeys: "distinct pathMapKeys"
  by (simp add: pathMapKeys_def)

lemma topic_registered: "t \<in> set pathMapKeys"
  by (cases t) (simp_all add: pathMapKeys_def)

lemma searchDoc_None:
  "searchDoc query t c = None \<longleftrightarrow> \<not> sublist (toLowerCase query) (toLowerCase c)"
  by (simp add: searchDoc_def searchDocWith_def Let_def includesStr_sublist split: prod.splits)

lemma searchDoc_topic: "searchDoc query t c = Some r \<Longrightarrow> r_topic r = t"
  by (auto simp: searchDoc_def searchDocWith_def Let_def split: prod.splits if_splits)

lemma searchResults_topics:
  "map r_topic (List.map_filter (\<lambda>(t, c). searchDoc query t c) tcs)
     = map fst (filter (\<lambda>(t, c). sublist (toLowerCase query) (toLowerCase c)) tcs)"
proof (induction tcs)
  case Nil
  then show ?case by (simp add: map_filter_simps)
next
  case (Cons tc tcs)
  obtain t c where tc: "tc = (t, c)"
    by (cases tc)
  show ?case
  proof (cases "searchDoc query t c")
    case None
    then show ?thesis
      using Cons tc searchDoc_None [of query t c] by (simp add: map_filter_simps)
  next
    case (Some r)
    then have "sublist (toLowerCase query) (toLowerCase c)"
      using searchDoc_None [of query t c] by auto
    then show ?thesis
      using Cons tc Some searchDoc_topic [OF Some] by (simp add: map_filter_simps)
  qed
qed

text \<open>
  C3. In a \<open>search-documentation\<close> call, a registered topic is among the results if (and
  only if) the query is a substring, ignoring case, of the document fetched for the topic;
  the results hold each topic at most once and follow the order of the registry, and the
  text returned lists them in this order.
\<close>

theorem search_containment_order:
  assumes fetched: "fetchAll remote now (map pathMap pathMapKeys) w = (contents, w')"
  shows "(\<forall>t. t \<in> set (map r_topic (searchResults query contents)) \<longleftrightarrow>
              sublist (toLowerCase query)
                (toLowerCase (fst (fetchDocMarkdown remote now (pathMap t) w))))
         \<and> distinct (map r_topic (searchResults query contents))
         \<and> subseq (map r_topic (searchResults query contents)) pathMapKeys
         \<and> (searchResults query contents \<noteq> [] \<longrightarrow>
              search_documentation remote now query w =
                (''# Search Results for '' @ [dquote] @ query @ [dquote] @ [newline, newline]
                 @ join ([newline, newline] @ ''---'' @ [newline, newline])
                     (map formatResult (searchResults query contents)), w'))"
proof -
  let ?doc = "\<lambda>t. fst (fetchDocMarkdown remote now (pathMap t) w)"
  let ?hit = "\<lambda>(t, c). sublist (toLowerCase query) (toLowerCase c)"
  have "contents = map (\<lambda>p. fst (fetchDocMarkdown remote now p w)) (map pathMap pathMapKeys)"
    using fetchAll_contents [OF distinct_paths, of w w remote now] fetched by simp
  then have contents: "contents = map ?doc pathMapKeys"
    by (simp add: comp_def)
  have zip: "zip pathMapKeys contents = map (\<lambda>t. (t, ?doc t)) pathMapKeys"
    unfolding contents by (simp add: zip_map2 zip_same_conv_map)
  have topics: "map r_topic (searchResults query contents)
                  = filter (\<lambda>t. sublist (toLowerCase query) (toLowerCase (?doc t))) pathMapKeys"
    unfolding searchResults_def searchResults_topics zip
    by (simp add: filter_map comp_def)
  have a: "\<forall>t. t \<in> set (map r_topic (searchResults query contents)) \<longleftrightarrow>
              sublist (toLowerCase query) (toLowerCase (?doc t))"
    unfolding topics using topic_registered by simp
  have b: "distinct (map r_topic (searchResults query contents))"
    unfolding topics using distinct_pathMapKeys by simp
  have c: "subseq (map r_topic (searchResults query contents)) pathMapKeys"
    unfolding topics by simp
  have d: "searchResults query contents \<noteq> [] \<longrightarrow>
              search_documentation remote now query w =
                (''# Search Results for '' @ [dquote] @ query @ [dquote] @ [newline, newline]
                 @ join ([newline, newline] @ ''---'' @ [newline, newline])
                     (map formatResult (searchResults query contents)), w')"
    using fetched by (simp add: search_documentation_def)
  show ?thesis
    using a b c d by blast
qed


theorem search_containment_order_witness:
  "Quickstart \<in> set (map r_topic (searchResults ''send''
       (fst (fetchAll
          (\<lambda>u. if u = ''https://docs.paymanai.com/overview/quickstart.md''
                then Inr (Response 200 (Inr ''Send money'')) else Inl (ErrorObj ''down''))
          0 (map pathMap pathMapKeys) \<lparr>documentCache = Map.empty, requests = []\<rparr>))))
   \<and> Playground \<notin> set (map r_topic (searchResults ''send''
       (fst (fetchAll
          (\<lambda>u. if u = ''https://docs.paymanai.com/overview/quickstart.md''
                then Inr (Response 200 (Inr ''Send money'')) else Inl (ErrorObj ''down''))
          0 (map pathMap pathMapKeys) \<lparr>documentCache = Map.empty, requests = []\<rparr>))))"
proof -
  let ?R = "\<lambda>u. if u = ''https://docs.paymanai.com/overview/quickstart.md''
                then Inr (Response 200 (Inr ''Send money'')) else Inl (ErrorObj ''down'')"
  let ?W = "\<lparr>documentCache = Map.empty, requests = []\<rparr>"
  have d1: "fst (fetchDocMarkdown ?R 0 (pathMap Quickstart) ?W) = ''Send money''"
    by (simp add: fetchDocMarkdown_def refetch_def tryFetch_def docUrl_def ok_def)
  have d2: "fst (fetchDocMarkdown ?R 0 (pathMap Playground) ?W)
              = placeholder ''/overview/playground'' ''down''"
    by (simp add: fetchDocMarkdown_def refetch_def tryFetch_def docUrl_def errorMessage_def)
  have "includesStr (toLowerCase ''Send money'') (toLowerCase ''send'')"
    by code_simp
  then have s1: "sublist (toLowerCase ''send'') (toLowerCase ''Send money'')"
    by (simp add: includesStr_sublist)
  have "\<not> includesStr (toLowerCase (placeholder ''/overview/playground'' ''down''))
            (toLowerCase ''send'')"
    by code_simp
  then have s2: "\<not> sublist (toLowerCase ''send'')
                     (toLowerCase (placeholder ''/overview/playground'' ''down''))"
    by (simp add: includesStr_sublist)
  have f: "fetchAll ?R 0 (map pathMap pathMapKeys) ?W
             = (fst (fetchAll ?R 0 (map pathMap pathMapKeys) ?W),
                snd (fetchAll ?R 0 (map pathMap pathMapKeys) ?W))"
    by simp
  show ?thesis
    using search_containment_order [OF f, of "''send''"] d1 d2 s1 s2
    by simp
qed










text \<open>
  The markers on a body of 403 characters with the match at index 200, and none on a body
  of 303 characters with the match at index 150.
\<close>

lemma excerptOf_clipped_example:
  "excerptOf toLowerCase ''pay'' (replicate 200 (CHR ''x'') @ ''Pay'' @ replicate 200 (CHR ''y''))
     = ''...'' @ replicate 150 (CHR ''x'') @ ''Pay'' @ replicate 150 (CHR ''y'') @ ''...''
   \<and> excerptOf toLowerCase ''pay'' (replicate 150 (CHR ''x'') @ ''Pay'' @ replicate 150 (CHR ''y''))
     = replicate 150 (CHR ''x'') @ ''Pay'' @ replicate 150 (CHR ''y'')"
  by code_simp

text \<open>
  With the lowering function that lengthens the text, the match is at index 400 of the
  lower-cased body, the body of 403 characters is cut from 250 to 403, and the excerpt
  is the marker and 153 times \<open>y\<close>, without the match.
\<close>

lemma excerptOf_lengthening_example:
  "indexOf (lowerDotted dottedBody) ''pay'' = 400
   \<and> length dottedBody = 403
   \<and> excerptOf lowerDotted ''pay'' dottedBody = ''...'' @ replicate 153 (CHR ''y'')"
  by code_simp




section \<open>Properties of get-code-examples\<close>

text \<open>
  In the document with one Python and one JavaScript block, a Python request for a feature
  that occurs in the Python block returns that block and not the JavaScript block.
\<close>

lemma get_code_examples_language_example:
  "codeBlocks Python twoLanguageDoc = [''client.send_payment(amount)'']
   \<and> relevantBlocks Python ''send_payment'' twoLanguageDoc = [''client.send_payment(amount)'']
   \<and> map_option examples (codeExamplesDoc Python ''send_payment'' SendPayments twoLanguageDoc)
       = Some [''client.send_payment(amount)'']"
  by code_simp

text \<open>
  C6. The text before a block is looked up with \<open>content.indexOf(code)\<close>, the first place
  where the block's text occurs in the document, which need not be the block. In
  \<open>retryDoc\<close> both Python blocks have the text \<open>run()\<close>; the second block starts at index 50
  and the 300 characters before it contain \<open>retry\<close>, but \<open>indexOf\<close> gives 10, the first
  block, whose preceding text does not. So the second block is dropped, and with it the
  whole document.
\<close>

theorem get_code_examples_lookbehind_failing:
  "codeBlocks Python retryDoc = [''run()'', ''run()'']
   \<and> prefix ''run()'' (drop 50 retryDoc)
   \<and> includesStr (toLowerCase (substring retryDoc (max 0 (50 - 300)) 50)) (toLowerCase ''retry'')
   \<and> indexOf retryDoc ''run()'' = 10
   \<and> relevantBlocks Python ''retry'' retryDoc = []
   \<and> codeExamplesDoc Python ''retry'' SendPayments retryDoc = None"
  by code_simp


theorem get_code_examples_lookbehind_failing_witness:
  "relevantBlocks Python ''retry'' retryDoc = []
   \<and> includesStr (toLowerCase (substring retryDoc (max 0 (50 - 300)) 50)) (toLowerCase ''retry'')"
  using get_code_examples_lookbehind_failing by simp


end
